theory Spec2Isabelle
  imports Main "HOL-Library.Sublist"
begin

section \<open>Python strings\<close>

text \<open>
  The log text is a Python \<open>str\<close>. It is modelled as a \<open>string\<close>, one \<open>char\<close> for each
  character: the texts covered are those whose characters are code points below 256, among
  them every ASCII text and every text that \<open>parse_log_file\<close> reads through its Latin-1
  fallback. On this range \<open>str.isspace\<close>, \<open>str.strip\<close> and the regex class \<open>\s\<close> agree on
  the twelve characters below, and \<open>\d\<close> is the ten ASCII digits.
\<close>

definition newline :: char where
  "newline = CHR 0x0A"

definition isspace :: "char \<Rightarrow> bool" where
  "isspace c = (c \<in> set [CHR 0x20, CHR 0x0A, CHR 0x09, CHR 0x0D, CHR 0x0B, CHR 0x0C,
       CHR 0x1C, CHR 0x1D, CHR 0x1E, CHR 0x1F, CHR 0x85, CHR 0xA0])"

definition isdigit :: "char \<Rightarrow> bool" where
  "isdigit c = (c \<in> set ''0123456789'')"

text \<open>\<open>s.strip()\<close>\<close>

definition strip :: "string \<Rightarrow> string" where
  "strip s = rev (dropWhile isspace (rev (dropWhile isspace s)))"

text \<open>\<open>s[a:b]\<close> for non-negative \<open>a\<close> and \<open>b\<close>; empty when \<open>b \<le> a\<close>.\<close>

definition slice :: "string \<Rightarrow> nat \<Rightarrow> nat \<Rightarrow> string" where
  "slice s a b = take (b - a) (drop a s)"

text \<open>\<open>s.split('\n')\<close>: the empty string splits into one empty piece.\<close>

fun split_nl :: "string \<Rightarrow> string list" where
  "split_nl [] = [[]]"
| "split_nl (c # cs) =
     (if c = newline then [] # split_nl cs
      else (case split_nl cs of [] \<Rightarrow> [[c]] | l # ls \<Rightarrow> (c # l) # ls))"

text \<open>\<open>sep.join(xs)\<close>\<close>

fun join :: "string \<Rightarrow> string list \<Rightarrow> string" where
  "join sep [] = []"
| "join sep [x] = x"
| "join sep (x # y # ys) = x @ sep @ join sep (y # ys)"

definition startswith :: "string \<Rightarrow> string \<Rightarrow> bool" where
  "startswith s p = (take (length p) s = p)"

text \<open>\<open>s.lower()\<close>, on the ASCII letters (it is only applied to the captured outcome words).\<close>

definition lower_char :: "char \<Rightarrow> char" where
  "lower_char c = (case map_of (zip ''ABCDEFGHIJKLMNOPQRSTUVWXYZ'' ''abcdefghijklmnopqrstuvwxyz'') c of
                     Some d \<Rightarrow> d | None \<Rightarrow> c)"

definition lower :: "string \<Rightarrow> string" where
  "lower s = map lower_char s"

text \<open>The exceptions that the conversions of captured numbers raise.\<close>

datatype error = ValueError | OverflowError

text \<open>The number that a string of decimal digits denotes.\<close>

definition digit_val :: "char \<Rightarrow> int" where
  "digit_val c = int (of_char c) - 48"

definition digits_value :: "string \<Rightarrow> int" where
  "digits_value s = foldl (\<lambda>a c. 10 * a + digit_val c) 0 s"

text \<open>
  \<open>int(s)\<close> on a string of decimal digits, all that the group \<open>\d+\<close> captures: the number that
  the digits denote, and a \<open>ValueError\<close> when there are more than 4300 of them, leading zeros
  counted (the limit \<open>sys.int_info.default_max_str_digits\<close> of the interpreter, which the
  script does not change). \<open>float(s)\<close> has no such limit.
\<close>

definition int_of_digits :: "string \<Rightarrow> error + int" where
  "int_of_digits s = (if 4300 < length s then Inl ValueError else Inr (digits_value s))"

text \<open>
  A \<open>dict\<close> whose iteration order matters is an association list in insertion order: storing
  under a key that is present replaces the value and keeps the key's place.
\<close>

fun dict_set :: "('k \<times> 'v) list \<Rightarrow> 'k \<Rightarrow> 'v \<Rightarrow> ('k \<times> 'v) list" where
  "dict_set [] k v = [(k, v)]"
| "dict_set ((k', v') # kvs) k v =
     (if k' = k then (k, v) # kvs else (k', v') # dict_set kvs k v)"

section \<open>Floating point: \<open>int(float(s) * 1000)\<close>\<close>

text \<open>
  A finite non-negative double is \<open>Fin m u\<close>, the number \<open>m * 2 ^ u\<close>. \<open>round_to_double a b\<close>
  is the double nearest to \<open>a / b\<close> (ties to even, 53 significant bits, smallest exponent
  \<open>-1074\<close>, infinity from \<open>2 ^ 1024\<close> on), which is what \<open>float(s)\<close> and the product of two
  doubles return.
\<close>

datatype double = Fin int int | Inf

function bitlen :: "int \<Rightarrow> nat" where
  "bitlen n = (if n \<le> 0 then 0 else Suc (bitlen (n div 2)))"
  by pat_completeness auto
termination
  by (relation "measure nat") auto

declare bitlen.simps [simp del]

definition round_half_even :: "int \<Rightarrow> int \<Rightarrow> int" where
  "round_half_even n d =
     (let q = n div d; r = n mod d
      in if 2 * r < d then q
         else if d < 2 * r then q + 1
         else if even q then q else q + 1)"

definition round_to_double :: "int \<Rightarrow> int \<Rightarrow> double" where
  "round_to_double a b =
     (if a = 0 then Fin 0 0
      else
        (let d = int (bitlen a) - int (bitlen b);
             e = (if b * 2 ^ nat d \<le> a * 2 ^ nat (- d) then d else d - 1);
             u = max (e - 52) (- 1074);
             m = round_half_even (a * 2 ^ nat (- u)) (b * 2 ^ nat u)
         in if 0 \<le> u \<and> 2 ^ 1024 \<le> m * 2 ^ nat u then Inf else Fin m u))"

text \<open>
  \<open>float(s)\<close> for a string of digits and dots, all that the group \<open>[\d.]+\<close> captures: a
  \<open>ValueError\<close> unless there is at most one dot and at least one digit.
\<close>

definition py_float :: "string \<Rightarrow> error + double" where
  "py_float s =
     (let ip = takeWhile isdigit s; rest = dropWhile isdigit s;
          fp = (case rest of [] \<Rightarrow> [] | c # cs \<Rightarrow> cs)
      in if (rest \<noteq> [] \<and> hd rest \<noteq> CHR ''.'') \<or> \<not> list_all isdigit fp \<or> ip @ fp = []
         then Inl ValueError
         else Inr (round_to_double (digits_value (ip @ fp)) (10 ^ length fp)))"

definition times_1000 :: "double \<Rightarrow> double" where
  "times_1000 x = (case x of Inf \<Rightarrow> Inf
                   | Fin m u \<Rightarrow> round_to_double (m * 1000 * 2 ^ nat u) (2 ^ nat (- u)))"

text \<open>\<open>int(x)\<close> truncates; on infinity it raises \<open>OverflowError\<close>.\<close>

definition py_int :: "double \<Rightarrow> error + int" where
  "py_int x = (case x of Inf \<Rightarrow> Inl OverflowError
               | Fin m u \<Rightarrow> Inr (m * 2 ^ nat u div 2 ^ nat (- u)))"

definition seconds_to_ms :: "string \<Rightarrow> error + int" where
  "seconds_to_ms s = (case py_float s of Inl e \<Rightarrow> Inl e | Inr x \<Rightarrow> py_int (times_1000 x))"

section \<open>Regular expressions as \<open>re\<close> matches them\<close>

text \<open>
  \<open>rmatch s r i g\<close> lists, in the order in which the backtracking matcher of \<open>re\<close> tries them,
  the ways in which \<open>r\<close> matches \<open>s\<close> from position \<open>i\<close>: the end position and the groups
  captured, \<open>g\<close> being those captured before. The match found is the head of the list.
  \<open>Star\<close> is the greedy \<open>*\<close>, \<open>LazyStar\<close> is \<open>*?\<close>; an iteration that consumes nothing ends
  the repetition. \<open>Bol\<close> and \<open>Eol\<close> are \<open>^\<close> and \<open>$\<close> under \<open>re.MULTILINE\<close>, \<open>EndZ\<close> is \<open>\Z\<close>.
\<close>

datatype regex =
    Lit char
  | Cls "char \<Rightarrow> bool"
  | Eps
  | Seq regex regex
  | Alt regex regex
  | Star regex
  | LazyStar regex
  | Group nat regex
  | Ahead regex
  | NotAhead regex
  | Bol
  | Eol
  | EndZ

type_synonym caps = "(nat \<times> nat \<times> nat) list"

function rmatch :: "string \<Rightarrow> regex \<Rightarrow> nat \<Rightarrow> caps \<Rightarrow> (nat \<times> caps) list" where
  "rmatch s (Lit c) i g = (if i < length s \<and> s ! i = c then [(i + 1, g)] else [])"
| "rmatch s (Cls P) i g = (if i < length s \<and> P (s ! i) then [(i + 1, g)] else [])"
| "rmatch s Eps i g = [(i, g)]"
| "rmatch s (Seq r1 r2) i g =
     concat (map (\<lambda>(j, g'). rmatch s r2 j g') (rmatch s r1 i g))"
| "rmatch s (Alt r1 r2) i g = rmatch s r1 i g @ rmatch s r2 i g"
| "rmatch s (Star r) i g =
     concat (map (\<lambda>(j, g'). rmatch s (Star r) j g')
               (filter (\<lambda>(j, g'). i < j \<and> j \<le> length s) (rmatch s r i g)))
     @ [(i, g)]"
| "rmatch s (LazyStar r) i g =
     (i, g) #
     concat (map (\<lambda>(j, g'). rmatch s (LazyStar r) j g')
               (filter (\<lambda>(j, g'). i < j \<and> j \<le> length s) (rmatch s r i g)))"
| "rmatch s (Group n r) i g = map (\<lambda>(j, g'). (j, (n, i, j) # g')) (rmatch s r i g)"
| "rmatch s (Ahead r) i g = (if rmatch s r i g = [] then [] else [(i, g)])"
| "rmatch s (NotAhead r) i g = (if rmatch s r i g = [] then [(i, g)] else [])"
| "rmatch s Bol i g =
     (if i = 0 \<or> (i \<le> length s \<and> s ! (i - 1) = newline) then [(i, g)] else [])"
| "rmatch s Eol i g = (if length s \<le> i \<or> s ! i = newline then [(i, g)] else [])"
| "rmatch s EndZ i g = (if length s \<le> i then [(i, g)] else [])"
  by pat_completeness auto
termination
  by (relation "measures [\<lambda>(s, r, i, g). size r, \<lambda>(s, r, i, g). length s - i]") auto

declare rmatch.simps [simp del]

definition lit :: "string \<Rightarrow> regex" where
  "lit s = foldr (\<lambda>c r. Seq (Lit c) r) s Eps"

definition seqs :: "regex list \<Rightarrow> regex" where
  "seqs rs = foldr Seq rs Eps"

definition alts :: "regex list \<Rightarrow> regex" where
  "alts rs = foldr Alt (butlast rs) (last rs)"

text \<open>\<open>r+\<close>, \<open>r+?\<close> and \<open>r?\<close>\<close>

definition many1 :: "regex \<Rightarrow> regex" where
  "many1 r = Seq r (Star r)"

definition lazy_many1 :: "regex \<Rightarrow> regex" where
  "lazy_many1 r = Seq r (LazyStar r)"

definition optional :: "regex \<Rightarrow> regex" where
  "optional r = Alt r Eps"

text \<open>\<open>\s\<close>, \<open>\S\<close>, \<open>\d\<close>, \<open>[\d.]\<close>, \<open>.\<close> and \<open>.\<close> under \<open>re.DOTALL\<close>\<close>

definition ws :: regex where
  "ws = Cls isspace"

definition nonws :: regex where
  "nonws = Cls (\<lambda>c. \<not> isspace c)"

definition digit :: regex where
  "digit = Cls isdigit"

definition digit_or_dot :: regex where
  "digit_or_dot = Cls (\<lambda>c. isdigit c \<or> c = CHR ''.'')"

definition dot :: regex where
  "dot = Cls (\<lambda>c. c \<noteq> newline)"

definition dot_all :: regex where
  "dot_all = Cls (\<lambda>c. True)"

text \<open>A match object: \<open>start()\<close>, \<open>end()\<close> and the spans of the groups that took part.\<close>

datatype match = Match (mstart: nat) (mend: nat) (mcaps: caps)

definition group_opt :: "string \<Rightarrow> match \<Rightarrow> nat \<Rightarrow> string option" where
  "group_opt s m n =
     (case map_of (mcaps m) n of None \<Rightarrow> None | Some (a, b) \<Rightarrow> Some (slice s a b))"

text \<open>\<open>m.group(n)\<close> for a group that every match of the pattern sets.\<close>

definition group_of :: "string \<Rightarrow> match \<Rightarrow> nat \<Rightarrow> string" where
  "group_of s m n = (case group_opt s m n of None \<Rightarrow> [] | Some t \<Rightarrow> t)"

text \<open>\<open>pattern.search(s, pos, endpos)\<close>: the text ends at \<open>endpos\<close>, the scan starts at \<open>pos\<close>.\<close>

function search_from :: "string \<Rightarrow> regex \<Rightarrow> nat \<Rightarrow> match option" where
  "search_from s r i =
     (if length s < i then None
      else (case rmatch s r i [] of
              [] \<Rightarrow> search_from s r (i + 1)
            | (e, g) # _ \<Rightarrow> Some (Match i e g)))"
  by pat_completeness auto
termination
  by (relation "measure (\<lambda>(s, r, i). length s + 1 - i)") auto

declare search_from.simps [simp del]

definition search :: "regex \<Rightarrow> string \<Rightarrow> nat \<Rightarrow> nat \<Rightarrow> match option" where
  "search r s pos endpos = search_from (take endpos s) r pos"

text \<open>
  \<open>pattern.finditer(s)\<close>: the matches from left to right, each scan starting where the
  previous match ended (one further on after an empty match).
\<close>

function finditer_from :: "string \<Rightarrow> regex \<Rightarrow> nat \<Rightarrow> match list" where
  "finditer_from s r i =
     (if length s < i then []
      else (case rmatch s r i [] of
              [] \<Rightarrow> finditer_from s r (i + 1)
            | (e, g) # _ \<Rightarrow> Match i e g # finditer_from s r (max e (i + 1))))"
  by pat_completeness auto
termination
  by (relation "measure (\<lambda>(s, r, i). length s + 1 - i)") auto

declare finditer_from.simps [simp del]

definition finditer :: "regex \<Rightarrow> string \<Rightarrow> match list" where
  "finditer r s = finditer_from s r 0"

text \<open>
  Two syntactic checks on a pattern: \<open>sets_group n r\<close> says that every match of \<open>r\<close> goes
  through group \<open>n\<close>, and \<open>min_len r\<close> is a lower bound on the length of a match.
\<close>

fun sets_group :: "nat \<Rightarrow> regex \<Rightarrow> bool" where
  "sets_group n (Group k r) = (k = n \<or> sets_group n r)"
| "sets_group n (Seq r1 r2) = (sets_group n r1 \<or> sets_group n r2)"
| "sets_group n (Alt r1 r2) = (sets_group n r1 \<and> sets_group n r2)"
| "sets_group n r = False"

fun min_len :: "regex \<Rightarrow> nat" where
  "min_len (Lit c) = 1"
| "min_len (Cls P) = 1"
| "min_len (Seq r1 r2) = min_len r1 + min_len r2"
| "min_len (Alt r1 r2) = min (min_len r1) (min_len r2)"
| "min_len (Group k r) = min_len r"
| "min_len r = 0"

section \<open>Test-case records\<close>

datatype status = Passed | Failed | Skipped

record test_case =
  name :: string
  status :: status
  duration_ms :: int
  error_log :: "string option"

text \<open>\<open>status_map.get(status, 'failed')\<close> of the two parsers that have a status map.\<close>

definition go_status_map :: "string \<Rightarrow> status" where
  "go_status_map w =
     (case map_of [(''pass'', Passed), (''fail'', Failed), (''skip'', Skipped)] w of
        Some st \<Rightarrow> st | None \<Rightarrow> Failed)"

definition pytest_status_map :: "string \<Rightarrow> status" where
  "pytest_status_map w =
     (case map_of [(''passed'', Passed), (''failed'', Failed), (''skipped'', Skipped),
                   (''error'', Failed)] w of
        Some st \<Rightarrow> st | None \<Rightarrow> Failed)"

section \<open>GoogleTestParser\<close>

text \<open>
  \<^verbatim>\<open>\[ RUN\s+\]\s+(\S+)\<close>,
  \<^verbatim>\<open>\[\s+OK\s+\]\s+(\S+)\s+\((\d+)\s+ms\)\<close>,
  \<^verbatim>\<open>\[\s+FAILED\s+\]\s+(\S+)\s+\((\d+)\s+ms\)\<close> and
  \<^verbatim>\<open>(test/[^\n:]+:\d+:[^\n]*(?:\n(?!\[)[^\n]*)*)\<close>
\<close>

definition run_pattern :: regex where
  "run_pattern = seqs [lit ''[ RUN'', many1 ws, Lit CHR '']'', many1 ws, Group 1 (many1 nonws)]"

definition ok_pattern :: regex where
  "ok_pattern = seqs [Lit CHR ''['', many1 ws, lit ''OK'', many1 ws, Lit CHR '']'', many1 ws,
     Group 1 (many1 nonws), many1 ws, Lit CHR ''('', Group 2 (many1 digit), many1 ws, lit ''ms)'']"

definition failed_pattern :: regex where
  "failed_pattern = seqs [Lit CHR ''['', many1 ws, lit ''FAILED'', many1 ws, Lit CHR '']'', many1 ws,
     Group 1 (many1 nonws), many1 ws, Lit CHR ''('', Group 2 (many1 digit), many1 ws, lit ''ms)'']"

definition test_error_pattern :: regex where
  "test_error_pattern = Group 1 (seqs [lit ''test/'',
     many1 (Cls (\<lambda>c. c \<noteq> newline \<and> c \<noteq> CHR '':'')), Lit CHR '':'', many1 digit, Lit CHR '':'',
     Star (Cls (\<lambda>c. c \<noteq> newline)),
     Star (seqs [Lit newline, NotAhead (Lit CHR ''[''), Star (Cls (\<lambda>c. c \<noteq> newline))])])"

text \<open>An entry of \<open>result_map\<close>; the key is the position of the marker.\<close>

record gresult =
  r_name :: string
  r_status :: status
  r_duration_ms :: int
  r_end_pos :: nat

text \<open>
  One of the two loops that fill \<open>result_map\<close>; \<open>int\<close> may raise, which ends the parse.
\<close>

fun add_results ::
  "string \<Rightarrow> status \<Rightarrow> (nat \<times> gresult) list \<Rightarrow> match list \<Rightarrow> error + (nat \<times> gresult) list" where
  "add_results content st m [] = Inr m"
| "add_results content st m (mt # ms) =
     (let nm = strip (group_of content mt 1)
      in (case int_of_digits (group_of content mt 2) of
            Inl e \<Rightarrow> Inl e
          | Inr d \<Rightarrow>
              add_results content st
                (dict_set m (mstart mt)
                   \<lparr>r_name = nm, r_status = st, r_duration_ms = d, r_end_pos = mend mt\<rparr>) ms))"

text \<open>The two loops in their order: every OK marker, then every FAILED marker.\<close>

definition result_map :: "string \<Rightarrow> error + (nat \<times> gresult) list" where
  "result_map content =
     (case add_results content Passed [] (finditer ok_pattern content) of
        Inl e \<Rightarrow> Inl e
      | Inr m \<Rightarrow> add_results content Failed m (finditer failed_pattern content))"

text \<open>The loop over \<open>result_map.items()\<close> that stops at the first hit.\<close>

definition find_result ::
  "(nat \<times> gresult) list \<Rightarrow> nat \<Rightarrow> string \<Rightarrow> (nat \<times> gresult) option" where
  "find_result rm run_start test_name =
     find (\<lambda>(pos, res). run_start < pos \<and> r_name res = test_name) rm"

text \<open>\<^verbatim>\<open>if error_log: test_case['error_log'] = error_log[:2048]\<close>\<close>

definition with_error_log :: "test_case \<Rightarrow> string \<Rightarrow> test_case" where
  "with_error_log tc log =
     (if log \<noteq> [] then tc\<lparr>error_log := Some (take 2048 log)\<rparr> else tc)"

text \<open>The error log of a test that has a FAILED marker.\<close>

definition failed_error_log :: "string \<Rightarrow> nat \<Rightarrow> nat \<Rightarrow> string" where
  "failed_error_log content error_start error_end =
     (let error_content = strip (slice content error_start error_end)
      in (case search test_error_pattern content error_start error_end of
            Some test_error_match \<Rightarrow>
              (let match_start = mstart test_error_match;
                   potential_end = mend test_error_match
               in if int potential_end < int error_end - 50 then error_content
                  else strip (slice content match_start (min potential_end error_end)))
          | None \<Rightarrow> error_content))"

definition next_run_start :: "string \<Rightarrow> match list \<Rightarrow> nat \<Rightarrow> nat" where
  "next_run_start content run_matches run_start =
     (case find (\<lambda>next_run. run_start < mstart next_run) run_matches of
        Some next_run \<Rightarrow> mstart next_run
      | None \<Rightarrow> length content)"

definition error_lines :: "string \<Rightarrow> string list" where
  "error_lines error_content =
     filter (\<lambda>line. line \<noteq> [] \<and> \<not> startswith line ''[DEBUG]'' \<and> \<not> startswith line ''[INFO]'')
       (map strip (split_nl error_content))"

text \<open>The branch of a test that has no result.\<close>

definition no_result_case :: "string \<Rightarrow> match list \<Rightarrow> match \<Rightarrow> test_case \<Rightarrow> test_case" where
  "no_result_case content run_matches run_match tc =
     (let nrs = next_run_start content run_matches (mstart run_match)
      in (case search test_error_pattern content (mend run_match) nrs of
            Some test_error_match \<Rightarrow>
              with_error_log tc (strip (slice content (mstart test_error_match) nrs))
          | None \<Rightarrow>
              (let ls = error_lines (strip (slice content (mend run_match) nrs))
               in if ls \<noteq> []
                  then tc\<lparr>error_log := Some (take 2048 (join [newline] (take 20 ls)))\<rparr>
                  else tc)))"

text \<open>The body of the loop over \<open>run_matches\<close>.\<close>

definition gtest_case ::
  "string \<Rightarrow> match list \<Rightarrow> (nat \<times> gresult) list \<Rightarrow> match \<Rightarrow> test_case" where
  "gtest_case content run_matches rm run_match =
     (let test_name = strip (group_of content run_match 1);
          tc = \<lparr>name = test_name, status = Failed, duration_ms = 0, error_log = None\<rparr>
      in (case find_result rm (mstart run_match) test_name of
            Some (result_start, res) \<Rightarrow>
              (let tc' = tc\<lparr>status := r_status res, duration_ms := r_duration_ms res\<rparr>
               in if r_status res = Failed
                  then with_error_log tc' (failed_error_log content (mend run_match) result_start)
                  else tc')
          | None \<Rightarrow> no_result_case content run_matches run_match tc))"

definition GoogleTestParser_parse :: "string \<Rightarrow> error + test_case list" where
  "GoogleTestParser_parse content =
     (let run_matches = finditer run_pattern content
      in (case result_map content of
            Inl e \<Rightarrow> Inl e
          | Inr rm \<Rightarrow> Inr (map (gtest_case content run_matches rm) run_matches)))"

section \<open>GoTestParser\<close>

text \<open>
  \<^verbatim>\<open>^=== RUN\s+(.+)$\<close>,
  \<^verbatim>\<open>^--- (PASS|FAIL|SKIP):\s+(.+?)\s+\(([\d.]+)s\)$\<close> (both \<open>re.MULTILINE\<close>) and
  \<^verbatim>\<open>--- FAIL:\s+(.+?)\s+\([\d.]+s\)\n(.*?)(?=---|===|\Z)\<close> (\<open>re.MULTILINE | re.DOTALL\<close>)
\<close>

definition test_pattern :: regex where
  "test_pattern = seqs [Bol, lit ''=== RUN'', many1 ws, Group 1 (many1 dot), Eol]"

definition result_pattern :: regex where
  "result_pattern = seqs [Bol, lit ''--- '',
     Group 1 (alts [lit ''PASS'', lit ''FAIL'', lit ''SKIP'']), Lit CHR '':'', many1 ws,
     Group 2 (lazy_many1 dot), many1 ws, Lit CHR ''('', Group 3 (many1 digit_or_dot), lit ''s)'',
     Eol]"

definition error_section_pattern :: regex where
  "error_section_pattern = seqs [lit ''--- FAIL:'', many1 ws, Group 1 (lazy_many1 dot_all),
     many1 ws, Lit CHR ''('', many1 digit_or_dot, lit ''s)'', Lit newline,
     Group 2 (LazyStar dot_all), Ahead (alts [lit ''---'', lit ''==='', EndZ])]"

text \<open>
  The loop that fills \<open>result_map\<close>; \<open>float\<close> and \<open>int\<close> may raise, which ends the parse.
\<close>

fun go_result_map ::
  "string \<Rightarrow> (string \<rightharpoonup> status \<times> int) \<Rightarrow> match list \<Rightarrow> error + (string \<rightharpoonup> status \<times> int)" where
  "go_result_map content m [] = Inr m"
| "go_result_map content m (mt # ms) =
     (let st = lower (group_of content mt 1);
          nm = strip (group_of content mt 2)
      in (case seconds_to_ms (group_of content mt 3) of
            Inl e \<Rightarrow> Inl e
          | Inr ms' \<Rightarrow> go_result_map content (m(nm \<mapsto> (go_status_map st, ms'))) ms))"

text \<open>The loop that fills \<open>error_map\<close> from the pairs that \<open>re.findall\<close> returns.\<close>

definition go_error_map :: "string \<Rightarrow> (string \<rightharpoonup> string)" where
  "go_error_map content =
     foldl (\<lambda>m mt. m(strip (group_of content mt 1) \<mapsto> take 2048 (strip (group_of content mt 2))))
       Map.empty (finditer error_section_pattern content)"

text \<open>The loop over \<open>test_matches\<close>, with the set \<open>processed_names\<close>.\<close>

fun go_cases ::
  "string \<Rightarrow> (string \<rightharpoonup> status \<times> int) \<Rightarrow> (string \<rightharpoonup> string) \<Rightarrow> string list \<Rightarrow> match list
     \<Rightarrow> test_case list" where
  "go_cases content rm em processed_names [] = []"
| "go_cases content rm em processed_names (mt # ms) =
     (let nm = strip (group_of content mt 1)
      in if nm \<in> set processed_names then go_cases content rm em processed_names ms
         else (case rm nm of
                 Some (st, d) \<Rightarrow>
                   \<lparr>name = nm, status = st, duration_ms = d, error_log = em nm\<rparr>
                     # go_cases content rm em (nm # processed_names) ms
               | None \<Rightarrow> go_cases content rm em (nm # processed_names) ms))"

definition GoTestParser_parse :: "string \<Rightarrow> error + test_case list" where
  "GoTestParser_parse content =
     (let test_matches = finditer test_pattern content;
          result_matches = finditer result_pattern content
      in (case go_result_map content Map.empty result_matches of
            Inl e \<Rightarrow> Inl e
          | Inr rm \<Rightarrow> Inr (go_cases content rm (go_error_map content) [] test_matches)))"

section \<open>PytestParser\<close>

text \<open>
  \<^verbatim>\<open>^(.+?)::(.+?)\s+(PASSED|FAILED|SKIPPED|ERROR)(?:\s+\[.*?\])?(?:\s+\[([\d.]+)s\])?$\<close>
  (\<open>re.MULTILINE\<close>) and, for a file name and a test name,
  \<^verbatim>\<open>FAILED\s+{re.escape(file_name)}::{re.escape(test_name)}.*?\n(.*?)(?=\n\S|\Z)\<close>
  (\<open>re.MULTILINE | re.DOTALL\<close>)
\<close>

definition pytest_pattern :: regex where
  "pytest_pattern = seqs [Bol, Group 1 (lazy_many1 dot), lit ''::'', Group 2 (lazy_many1 dot),
     many1 ws, Group 3 (alts [lit ''PASSED'', lit ''FAILED'', lit ''SKIPPED'', lit ''ERROR'']),
     optional (seqs [many1 ws, Lit CHR ''['', LazyStar dot, Lit CHR '']'']),
     optional (seqs [many1 ws, Lit CHR ''['', Group 4 (many1 digit_or_dot), lit ''s]'']),
     Eol]"

definition error_pattern :: "string \<Rightarrow> string \<Rightarrow> regex" where
  "error_pattern file_name test_name = seqs [lit ''FAILED'', many1 ws, lit file_name, lit ''::'',
     lit test_name, LazyStar dot_all, Lit newline, Group 1 (LazyStar dot_all),
     Ahead (alts [Seq (Lit newline) nonws, EndZ])]"

text \<open>
  \<open>duration_ms\<close>: zero without a duration and after a \<open>ValueError\<close>, which is caught; an
  \<open>OverflowError\<close> is not.
\<close>

definition pytest_duration_ms :: "string option \<Rightarrow> error + int" where
  "pytest_duration_ms duration =
     (case duration of
        None \<Rightarrow> Inr 0
      | Some d \<Rightarrow>
          (if d = [] then Inr 0
           else (case seconds_to_ms d of
                   Inl ValueError \<Rightarrow> Inr 0
                 | Inl OverflowError \<Rightarrow> Inl OverflowError
                 | Inr ms \<Rightarrow> Inr ms)))"

definition pytest_case :: "string \<Rightarrow> match \<Rightarrow> error + test_case" where
  "pytest_case content mt =
     (let file_name = group_of content mt 1;
          test_name = group_of content mt 2;
          st = pytest_status_map (lower (group_of content mt 3));
          full_name = file_name @ ''::'' @ test_name
      in (case pytest_duration_ms (group_opt content mt 4) of
            Inl e \<Rightarrow> Inl e
          | Inr d \<Rightarrow>
              (let tc = \<lparr>name = full_name, status = st, duration_ms = d, error_log = None\<rparr>
               in if st = Failed
                  then (case search (error_pattern file_name test_name) content (mend mt)
                               (length content) of
                          Some error_match \<Rightarrow>
                            Inr (tc\<lparr>error_log :=
                                  Some (take 2048 (strip (group_of content error_match 1)))\<rparr>)
                        | None \<Rightarrow> Inr tc)
                  else Inr tc)))"

fun pytest_cases :: "string \<Rightarrow> match list \<Rightarrow> error + test_case list" where
  "pytest_cases content [] = Inr []"
| "pytest_cases content (mt # ms) =
     (case pytest_case content mt of
        Inl e \<Rightarrow> Inl e
      | Inr tc \<Rightarrow> (case pytest_cases content ms of Inl e \<Rightarrow> Inl e | Inr tcs \<Rightarrow> Inr (tc # tcs)))"

definition PytestParser_parse :: "string \<Rightarrow> error + test_case list" where
  "PytestParser_parse content = pytest_cases content (finditer pytest_pattern content)"

section \<open>GenericParser\<close>

text \<open>No exception of a parser is caught.\<close>

definition GenericParser_parse :: "string \<Rightarrow> error + test_case list" where
  "GenericParser_parse content =
     (case GoogleTestParser_parse content of
        Inl e \<Rightarrow> Inl e
      | Inr test_cases \<Rightarrow>
          if test_cases \<noteq> [] then Inr test_cases
          else (case GoTestParser_parse content of
                  Inl e \<Rightarrow> Inl e
                | Inr test_cases \<Rightarrow>
                    if test_cases \<noteq> [] then Inr test_cases
                    else (case PytestParser_parse content of
                            Inl e \<Rightarrow> Inl e
                          | Inr test_cases \<Rightarrow>
                              if test_cases \<noteq> [] then Inr test_cases else Inr [])))"

section \<open>The no-result error log as the specification words it\<close>



section \<open>The conversion of seconds as the specification words it\<close>

text \<open>
  The specification converts the elapsed seconds of a terminal line to milliseconds by a
  truncating multiplication by 1000. The captured seconds are a decimal numeral: digits, and
  possibly a dot and \<open>k\<close> more digits, that is the number \<open>n / 10 ^ k\<close> for the number \<open>n\<close> that
  all the digits denote together. Its product with 1000, truncated, is the integer quotient
  of \<open>n * 1000\<close> by \<open>10 ^ k\<close>.
\<close>

definition spec_truncated_ms :: "string \<Rightarrow> int" where
  "spec_truncated_ms s =
     (let ip = takeWhile isdigit s; fp = drop 1 (dropWhile isdigit s)
      in (digits_value (ip @ fp) * 1000) div 10 ^ length fp)"

section \<open>Matches of the patterns\<close>

text \<open>
  Every match of a pattern of the parsers sets the groups that the parsers read without a
  test, so that \<open>group_of\<close> never falls back on its default there, and no pattern that
  \<open>finditer\<close> runs matches the empty string. A match that \<open>search\<close> returns starts at or
  after the position given.
\<close>

lemma rmatch_caps_grow: "(e, g') \<in> set (rmatch s r i g) \<Longrightarrow> \<exists>h. g' = h @ g"
proof (induction s r i g arbitrary: e g' rule: rmatch.induct)
  case (4 s r1 r2 i g)
  from "4.prems" obtain j g1 where 1: "(j, g1) \<in> set (rmatch s r1 i g)"
    and 2: "(e, g') \<in> set (rmatch s r2 j g1)"
    by (auto simp: rmatch.simps)
  from "4.IH"(1) [OF 1] "4.IH"(2) [OF 1 refl 2] show ?case by auto
next
  case (6 s r i g)
  from "6.prems" consider "(e, g') = (i, g)"
    | j g1 where "(j, g1) \<in> set (rmatch s r i g)" "i < j" "j \<le> length s"
        "(e, g') \<in> set (rmatch s (Star r) j g1)"
    by (subst (asm) rmatch.simps) auto
  then show ?case
  proof cases
    case 1
    then show ?thesis by simp
  next
    case 2
    from "6.IH"(1) [OF 2(1)] "6.IH"(2) [OF _ refl 2(4)] 2(1,2,3) show ?thesis by auto
  qed
next
  case (7 s r i g)
  from "7.prems" consider "(e, g') = (i, g)"
    | j g1 where "(j, g1) \<in> set (rmatch s r i g)" "i < j" "j \<le> length s"
        "(e, g') \<in> set (rmatch s (LazyStar r) j g1)"
    by (subst (asm) rmatch.simps) auto
  then show ?case
  proof cases
    case 1
    then show ?thesis by simp
  next
    case 2
    from "7.IH"(1) [OF 2(1)] "7.IH"(2) [OF _ refl 2(4)] 2(1,2,3) show ?thesis by auto
  qed
next
  case (8 s n r i g)
  from "8.prems" obtain g1 where "(e, g1) \<in> set (rmatch s r i g)" and "g' = (n, i, e) # g1"
    by (auto simp: rmatch.simps)
  with "8.IH" show ?case by (metis append_Cons)
qed (auto simp: rmatch.simps split: if_splits)


lemma rmatch_sets_group:
  "sets_group n r \<Longrightarrow> (e, g') \<in> set (rmatch s r i g) \<Longrightarrow> n \<in> fst ` set g'"
proof (induction r arbitrary: i g e g')
  case (Seq r1 r2)
  from Seq.prems(2) obtain j g1 where 1: "(j, g1) \<in> set (rmatch s r1 i g)"
    and 2: "(e, g') \<in> set (rmatch s r2 j g1)"
    by (auto simp: rmatch.simps)
  from Seq.prems(1) have "sets_group n r1 \<or> sets_group n r2" by simp
  then show ?case
  proof
    assume "sets_group n r1"
    from Seq.IH(1) [OF this 1] rmatch_caps_grow [OF 2] show ?thesis by auto
  next
    assume "sets_group n r2"
    from Seq.IH(2) [OF this 2] show ?thesis .
  qed
next
  case (Alt r1 r2)
  then show ?case by (auto simp: rmatch.simps)
next
  case (Group k r)
  from Group.prems(2) obtain g1 where 1: "(e, g1) \<in> set (rmatch s r i g)"
    and 2: "g' = (k, i, e) # g1"
    by (auto simp: rmatch.simps)
  from Group.prems(1) 1 2 Group.IH show ?case by auto
qed simp_all

lemma rmatch_min_len: "(e, g') \<in> set (rmatch s r i g) \<Longrightarrow> i + min_len r \<le> e"
proof (induction r arbitrary: i g e g')
  case (Seq r1 r2)
  from Seq.prems obtain j g1 where 1: "(j, g1) \<in> set (rmatch s r1 i g)"
    and 2: "(e, g') \<in> set (rmatch s r2 j g1)"
    by (auto simp: rmatch.simps)
  from Seq.IH(1) [OF 1] Seq.IH(2) [OF 2] show ?case by simp
next
  case (Alt r1 r2)
  from Alt.prems have "(e, g') \<in> set (rmatch s r1 i g) \<or> (e, g') \<in> set (rmatch s r2 i g)"
    by (auto simp: rmatch.simps)
  with Alt.IH show ?case by fastforce
next
  case (Group k r)
  from Group.prems obtain g1 where "(e, g1) \<in> set (rmatch s r i g)"
    by (auto simp: rmatch.simps)
  with Group.IH show ?case by simp
next
  case (Star r)
  show ?case
    using Star.prems
  proof (induction "length s - i" arbitrary: i g rule: less_induct)
    case less
    from less.prems consider "(e, g') = (i, g)"
      | j g1 where "(j, g1) \<in> set (rmatch s r i g)" "i < j" "j \<le> length s"
          "(e, g') \<in> set (rmatch s (Star r) j g1)"
      by (subst (asm) rmatch.simps) auto
    then show ?case
    proof cases
      case 1
      then show ?thesis by simp
    next
      case 2
      from 2(2,3) have "length s - j < length s - i" by simp
      from less.hyps [OF this 2(4)] 2(2) show ?thesis by simp
    qed
  qed
next
  case (LazyStar r)
  show ?case
    using LazyStar.prems
  proof (induction "length s - i" arbitrary: i g rule: less_induct)
    case less
    from less.prems consider "(e, g') = (i, g)"
      | j g1 where "(j, g1) \<in> set (rmatch s r i g)" "i < j" "j \<le> length s"
          "(e, g') \<in> set (rmatch s (LazyStar r) j g1)"
      by (subst (asm) rmatch.simps) auto
    then show ?case
    proof cases
      case 1
      then show ?thesis by simp
    next
      case 2
      from 2(2,3) have "length s - j < length s - i" by simp
      from less.hyps [OF this 2(4)] 2(2) show ?thesis by simp
    qed
  qed
qed (auto simp: rmatch.simps split: if_splits)

lemma finditer_from_head:
  "m \<in> set (finditer_from s r i) \<Longrightarrow> \<exists>xs. rmatch s r (mstart m) [] = (mend m, mcaps m) # xs"
proof (induction s r i rule: finditer_from.induct)
  case (1 s r i)
  show ?case
  proof (cases "length s < i")
    case True
    with "1.prems" show ?thesis by (simp add: finditer_from.simps)
  next
    case False
    show ?thesis
    proof (cases "rmatch s r i []")
      case Nil
      with False "1.prems" have "m \<in> set (finditer_from s r (i + 1))"
        by (simp add: finditer_from.simps [of s r i])
      from "1.IH"(1) [OF False Nil this] show ?thesis .
    next
      case (Cons x xs)
      obtain e g where x: "x = (e, g)" by (cases x)
      from False Cons x "1.prems"
      have "m = Match i e g \<or> m \<in> set (finditer_from s r (max e (i + 1)))"
        by (simp add: finditer_from.simps [of s r i])
      then show ?thesis
      proof
        assume "m = Match i e g"
        with Cons x show ?thesis by simp
      next
        assume "m \<in> set (finditer_from s r (max e (i + 1)))"
        from "1.IH"(2) [OF False Cons x [symmetric] this] show ?thesis .
      qed
    qed
  qed
qed

lemma search_from_head:
  "search_from s r i = Some m \<Longrightarrow> \<exists>xs. rmatch s r (mstart m) [] = (mend m, mcaps m) # xs"
proof (induction s r i rule: search_from.induct)
  case (1 s r i)
  show ?case
  proof (cases "length s < i")
    case True
    with "1.prems" show ?thesis by (simp add: search_from.simps)
  next
    case False
    show ?thesis
    proof (cases "rmatch s r i []")
      case Nil
      with False "1.prems" have "search_from s r (i + 1) = Some m"
        by (simp add: search_from.simps [of s r i])
      from "1.IH" [OF False Nil this] show ?thesis .
    next
      case (Cons x xs)
      with False "1.prems" show ?thesis
        by (cases x) (auto simp: search_from.simps [of s r i])
    qed
  qed
qed

lemma head_group_set:
  assumes "sets_group n r" and "rmatch s r (mstart m) [] = (mend m, mcaps m) # xs"
  shows "group_opt c m n \<noteq> None"
proof -
  from assms(2) have "(mend m, mcaps m) \<in> set (rmatch s r (mstart m) [])" by simp
  from rmatch_sets_group [OF assms(1) this] have "map_of (mcaps m) n \<noteq> None"
    by (simp add: map_of_eq_None_iff)
  then show ?thesis
    by (auto simp: group_opt_def)
qed

lemma finditer_group_set:
  assumes "sets_group n r" and "m \<in> set (finditer r s)"
  shows "group_opt c m n \<noteq> None"
proof -
  from assms(2) obtain xs where "rmatch s r (mstart m) [] = (mend m, mcaps m) # xs"
    unfolding finditer_def by (blast dest: finditer_from_head)
  with assms(1) show ?thesis by (rule head_group_set)
qed

lemma search_group_set:
  assumes "sets_group n r" and "search r s pos endpos = Some m"
  shows "group_opt c m n \<noteq> None"
proof -
  from assms(2) obtain xs where
    "rmatch (take endpos s) r (mstart m) [] = (mend m, mcaps m) # xs"
    unfolding search_def by (blast dest: search_from_head)
  with assms(1) show ?thesis by (rule head_group_set)
qed

lemma finditer_not_empty:
  assumes "0 < min_len r" and "m \<in> set (finditer r s)"
  shows "mstart m < mend m"
proof -
  from assms(2) obtain xs where "rmatch s r (mstart m) [] = (mend m, mcaps m) # xs"
    unfolding finditer_def by (blast dest: finditer_from_head)
  then have "(mend m, mcaps m) \<in> set (rmatch s r (mstart m) [])" by simp
  from rmatch_min_len [OF this] assms(1) show ?thesis by simp
qed

lemmas pattern_defs =
  run_pattern_def ok_pattern_def failed_pattern_def test_error_pattern_def test_pattern_def
  result_pattern_def error_section_pattern_def pytest_pattern_def error_pattern_def
  seqs_def alts_def lit_def many1_def lazy_many1_def optional_def
  ws_def nonws_def digit_def digit_or_dot_def dot_def dot_all_def

lemma patterns_set_their_groups:
  "sets_group 1 run_pattern"
  "sets_group 1 ok_pattern" "sets_group 2 ok_pattern"
  "sets_group 1 failed_pattern" "sets_group 2 failed_pattern"
  "sets_group 1 test_pattern"
  "sets_group 1 result_pattern" "sets_group 2 result_pattern" "sets_group 3 result_pattern"
  "sets_group 1 error_section_pattern" "sets_group 2 error_section_pattern"
  "sets_group 1 pytest_pattern" "sets_group 2 pytest_pattern" "sets_group 3 pytest_pattern"
  "sets_group 1 (error_pattern file_name test_name)"
  by (simp_all add: pattern_defs)

lemma patterns_match_no_empty_string:
  "0 < min_len run_pattern" "0 < min_len ok_pattern" "0 < min_len failed_pattern"
  "0 < min_len test_error_pattern" "0 < min_len test_pattern" "0 < min_len result_pattern"
  "0 < min_len error_section_pattern" "0 < min_len pytest_pattern"
  by (simp_all add: pattern_defs)





section \<open>Substrings\<close>















section \<open>The records of GoogleTestParser\<close>

lemma name_with_error_log: "name (with_error_log tc l) = name tc"
  by (simp add: with_error_log_def)

lemma status_with_error_log: "status (with_error_log tc l) = status tc"
  by (simp add: with_error_log_def)

lemma duration_with_error_log: "duration_ms (with_error_log tc l) = duration_ms tc"
  by (simp add: with_error_log_def)

lemma no_result_case_fields:
  "name (no_result_case c rs m tc) = name tc"
  "status (no_result_case c rs m tc) = status tc"
  "duration_ms (no_result_case c rs m tc) = duration_ms tc"
  by (simp_all add: no_result_case_def Let_def with_error_log_def split: option.splits)

lemma gtest_case_name: "name (gtest_case c rs rm m) = strip (group_of c m 1)"
  by (simp add: gtest_case_def Let_def no_result_case_fields with_error_log_def
           split: option.splits prod.splits)


lemma gtest_case_result:
  assumes "find_result rm (mstart m) (strip (group_of c m 1)) = Some (p, res)"
  shows "status (gtest_case c rs rm m) = r_status res"
    and "duration_ms (gtest_case c rs rm m) = r_duration_ms res"
  using assms by (simp_all add: gtest_case_def Let_def with_error_log_def)



lemma add_results_error: "add_results c st m0 ms = Inl e \<Longrightarrow> e = ValueError"
  by (induction ms arbitrary: m0) (auto simp: Let_def int_of_digits_def split: if_splits)


lemma result_map_error: "result_map c = Inl e \<Longrightarrow> e = ValueError"
  by (auto simp: result_map_def split: sum.splits dest: add_results_error)

lemma gtest_parse_Inr:
  "GoogleTestParser_parse c = Inr tcs \<longleftrightarrow>
     (\<exists>rm. result_map c = Inr rm \<and>
           tcs = map (gtest_case c (finditer run_pattern c) rm) (finditer run_pattern c))"
  by (auto simp: GoogleTestParser_parse_def Let_def split: sum.splits)

lemma gtest_parse_Inl: "GoogleTestParser_parse c = Inl e \<longleftrightarrow> result_map c = Inl e"
  by (auto simp: GoogleTestParser_parse_def Let_def split: sum.splits)


lemma gtest_parse_nth:
  "GoogleTestParser_parse c = Inr tcs \<Longrightarrow> result_map c = Inr rm \<Longrightarrow>
   i < length (finditer run_pattern c) \<Longrightarrow>
   tcs ! i = gtest_case c (finditer run_pattern c) rm (finditer run_pattern c ! i)"
  by (auto simp: gtest_parse_Inr)


lemma gtest_parse_names:
  "GoogleTestParser_parse c = Inr tcs \<Longrightarrow>
   map name tcs = map (\<lambda>m. strip (group_of c m 1)) (finditer run_pattern c)"
  by (auto simp: gtest_parse_Inr gtest_case_name)

lemma find_result_unique:
  assumes "filter (\<lambda>(pos, res). r_name res = nm) rm = [(p, res)]" and "s < p"
  shows "find_result rm s nm = Some (p, res)"
  using assms(1)
proof (induction rm)
  case Nil
  then show ?case by simp
next
  case (Cons x rm)
  obtain q r where x: "x = (q, r)" by (cases x)
  show ?case
  proof (cases "r_name r = nm")
    case True
    with Cons.prems x have "q = p" "r = res" by simp_all
    with True x assms(2) show ?thesis by (simp add: find_result_def)
  next
    case False
    with Cons.prems x have "filter (\<lambda>(pos, res). r_name res = nm) rm = [(p, res)]" by simp
    from Cons.IH [OF this] False x show ?thesis by (simp add: find_result_def)
  qed
qed

lemma with_error_log_bound:
  "error_log tc = None \<Longrightarrow> error_log (with_error_log tc l) = Some e \<Longrightarrow> length e \<le> 2048"
  by (auto simp: with_error_log_def split: if_splits)

lemma no_result_case_bound:
  "error_log tc = None \<Longrightarrow> error_log (no_result_case c rs m tc) = Some e \<Longrightarrow> length e \<le> 2048"
  by (auto simp: no_result_case_def Let_def with_error_log_def split: option.splits if_splits)

lemma gtest_case_bound:
  "error_log (gtest_case c rs rm m) = Some e \<Longrightarrow> length e \<le> 2048"
  by (auto simp: gtest_case_def Let_def with_error_log_def
           split: option.splits if_splits prod.splits dest: no_result_case_bound [rotated])

lemma gtest_parse_bound:
  "GoogleTestParser_parse c = Inr tcs \<Longrightarrow> tc \<in> set tcs \<Longrightarrow> error_log tc = Some e
     \<Longrightarrow> length e \<le> 2048"
  by (auto simp: gtest_parse_Inr dest: gtest_case_bound)






section \<open>The records of GoTestParser\<close>

lemma go_cases_Cons:
  "go_cases c rm em ps (mt # ms) =
     (if strip (group_of c mt 1) \<in> set ps then go_cases c rm em ps ms
      else if rm (strip (group_of c mt 1)) = None
           then go_cases c rm em (strip (group_of c mt 1) # ps) ms
           else \<lparr>name = strip (group_of c mt 1),
                  status = fst (the (rm (strip (group_of c mt 1)))),
                  duration_ms = snd (the (rm (strip (group_of c mt 1)))),
                  error_log = em (strip (group_of c mt 1))\<rparr>
                # go_cases c rm em (strip (group_of c mt 1) # ps) ms)"
  by (auto simp: Let_def split: option.splits)

lemma go_cases_names:
  "nm \<in> name ` set (go_cases c rm em ps ms) \<longleftrightarrow>
     nm \<notin> set ps \<and> rm nm \<noteq> None \<and> (\<exists>m \<in> set ms. strip (group_of c m 1) = nm)"
proof (induction ms arbitrary: ps)
  case Nil
  show ?case by simp
next
  case (Cons mt ms)
  show ?case
    unfolding go_cases_Cons by (auto simp: Cons.IH)
qed



lemma go_cases_error_log:
  "tc \<in> set (go_cases c rm em ps ms) \<Longrightarrow> error_log tc = em (name tc)"
  by (induction c rm em ps ms rule: go_cases.induct)
     (auto simp: Let_def split: if_splits option.splits)

lemma go_result_map_dom:
  "go_result_map c m0 ms = Inr rm \<Longrightarrow> rm nm = Some v \<Longrightarrow>
     m0 nm = Some v \<or>
     (\<exists>r \<in> set ms. strip (group_of c r 2) = nm \<and>
        v = (go_status_map (lower (group_of c r 1)), snd v) \<and>
        seconds_to_ms (group_of c r 3) = Inr (snd v))"
proof (induction ms arbitrary: m0)
  case Nil
  then show ?case by simp
next
  case (Cons r ms)
  from Cons.prems(1) obtain d where d: "seconds_to_ms (group_of c r 3) = Inr d"
    and rest: "go_result_map c
                 (m0(strip (group_of c r 2) \<mapsto> (go_status_map (lower (group_of c r 1)), d))) ms
               = Inr rm"
    by (auto simp: Let_def split: sum.splits)
  from Cons.IH [OF rest Cons.prems(2)] d show ?case
    by (auto split: if_splits)
qed

lemma go_result_map_dom_iff:
  "go_result_map c m0 ms = Inr rm \<Longrightarrow>
     rm nm \<noteq> None \<longleftrightarrow> m0 nm \<noteq> None \<or> (\<exists>r \<in> set ms. strip (group_of c r 2) = nm)"
proof (induction ms arbitrary: m0)
  case Nil
  then show ?case by simp
next
  case (Cons r ms)
  from Cons.prems obtain d where
    rest: "go_result_map c
             (m0(strip (group_of c r 2) \<mapsto> (go_status_map (lower (group_of c r 1)), d))) ms
           = Inr rm"
    by (auto simp: Let_def split: sum.splits)
  from Cons.IH [OF rest] show ?case by auto
qed



lemma go_parse_names:
  assumes "GoTestParser_parse c = Inr tcs"
  shows "nm \<in> name ` set tcs \<longleftrightarrow>
           (\<exists>m \<in> set (finditer test_pattern c). strip (group_of c m 1) = nm) \<and>
           (\<exists>r \<in> set (finditer result_pattern c). strip (group_of c r 2) = nm)"
proof -
  from assms obtain rm where
    rm: "go_result_map c Map.empty (finditer result_pattern c) = Inr rm" and
    tcs: "tcs = go_cases c rm (go_error_map c) [] (finditer test_pattern c)"
    by (auto simp: GoTestParser_parse_def Let_def split: sum.splits)
  from go_result_map_dom_iff [OF rm, of nm]
  have "rm nm \<noteq> None \<longleftrightarrow> (\<exists>r \<in> set (finditer result_pattern c). strip (group_of c r 2) = nm)"
    by simp
  then show ?thesis
    unfolding tcs go_cases_names by auto
qed


lemma go_error_map_fold_bound:
  assumes "\<And>k v. m0 k = Some v \<Longrightarrow> length v \<le> 2048"
    and "foldl (\<lambda>m mt. m(strip (group_of c mt 1) \<mapsto> take 2048 (strip (group_of c mt 2)))) m0 ms k
           = Some v"
  shows "length v \<le> 2048"
  using assms
proof (induction ms arbitrary: m0)
  case Nil
  then show ?case by simp
next
  case (Cons mt ms)
  show ?case
  proof (rule Cons.IH [OF _ Cons.prems(2) [simplified foldl_Cons]])
    fix k' v'
    assume "(m0(strip (group_of c mt 1) \<mapsto> take 2048 (strip (group_of c mt 2)))) k' = Some v'"
    then show "length v' \<le> 2048"
      using Cons.prems(1) by (auto split: if_splits)
  qed
qed

lemma go_error_map_bound: "go_error_map c k = Some v \<Longrightarrow> length v \<le> 2048"
  unfolding go_error_map_def by (rule go_error_map_fold_bound [of Map.empty]) auto

lemma go_parse_bound:
  "GoTestParser_parse c = Inr tcs \<Longrightarrow> tc \<in> set tcs \<Longrightarrow> error_log tc = Some e
     \<Longrightarrow> length e \<le> 2048"
  by (auto simp: GoTestParser_parse_def Let_def split: sum.splits
           dest!: go_cases_error_log dest: go_error_map_bound)







section \<open>The records of PytestParser\<close>

lemma pytest_case_bound:
  "pytest_case c mt = Inr tc \<Longrightarrow> error_log tc = Some e \<Longrightarrow> length e \<le> 2048"
  by (auto simp: pytest_case_def Let_def split: sum.splits if_splits option.splits)

lemma pytest_cases_bound:
  "pytest_cases c ms = Inr tcs \<Longrightarrow> tc \<in> set tcs \<Longrightarrow> error_log tc = Some e
     \<Longrightarrow> length e \<le> 2048"
  by (induction ms arbitrary: tcs)
     (auto split: sum.splits dest: pytest_case_bound)

lemma pytest_parse_bound:
  "PytestParser_parse c = Inr tcs \<Longrightarrow> tc \<in> set tcs \<Longrightarrow> error_log tc = Some e
     \<Longrightarrow> length e \<le> 2048"
  unfolding PytestParser_parse_def by (rule pytest_cases_bound)







section \<open>The result of GenericParser\<close>

lemma generic_parse_gtest:
  "GoogleTestParser_parse c = Inr g \<Longrightarrow> g \<noteq> [] \<Longrightarrow> GenericParser_parse c = Inr g"
  by (simp add: GenericParser_parse_def)

lemma generic_parse_go:
  "GoogleTestParser_parse c = Inr [] \<Longrightarrow> GoTestParser_parse c = Inr s \<Longrightarrow> s \<noteq> [] \<Longrightarrow>
     GenericParser_parse c = Inr s"
  by (simp add: GenericParser_parse_def)

lemma generic_parse_pytest:
  "GoogleTestParser_parse c = Inr [] \<Longrightarrow> GoTestParser_parse c = Inr [] \<Longrightarrow>
   PytestParser_parse c = Inr p \<Longrightarrow> GenericParser_parse c = Inr p"
  by (simp add: GenericParser_parse_def)

lemma generic_parse_result:
  "GenericParser_parse c = Inr tcs \<Longrightarrow>
     (GoogleTestParser_parse c = Inr tcs \<and> tcs \<noteq> []) \<or>
     (GoogleTestParser_parse c = Inr [] \<and> GoTestParser_parse c = Inr tcs \<and> tcs \<noteq> []) \<or>
     (GoogleTestParser_parse c = Inr [] \<and> GoTestParser_parse c = Inr [] \<and>
      PytestParser_parse c = Inr tcs)"
  by (simp add: GenericParser_parse_def split: sum.splits if_splits)

lemma generic_parse_bound:
  assumes "GenericParser_parse c = Inr tcs" and "tc \<in> set tcs" and "error_log tc = Some e"
  shows "length e \<le> 2048"
proof -
  from generic_parse_result [OF assms(1)]
  consider "GoogleTestParser_parse c = Inr tcs" | "GoTestParser_parse c = Inr tcs"
    | "PytestParser_parse c = Inr tcs"
    by blast
  then show ?thesis
  proof cases
    case 1
    from 1 assms(2,3) show ?thesis by (rule gtest_parse_bound)
  next
    case 2
    from 2 assms(2,3) show ?thesis by (rule go_parse_bound)
  next
    case 3
    from 3 assms(2,3) show ?thesis by (rule pytest_parse_bound)
  qed
qed

lemma no_match_gtest:
  assumes "finditer run_pattern c = []" and "finditer ok_pattern c = []"
    and "finditer failed_pattern c = []"
  shows "GoogleTestParser_parse c = Inr []"
  using assms by (simp add: GoogleTestParser_parse_def result_map_def)

lemma no_match_go:
  assumes "finditer test_pattern c = []" and "finditer result_pattern c = []"
  shows "GoTestParser_parse c = Inr []"
  using assms by (simp add: GoTestParser_parse_def)

lemma no_match_pytest:
  assumes "finditer pytest_pattern c = []"
  shows "PytestParser_parse c = Inr []"
  using assms by (simp add: PytestParser_parse_def)

section \<open>The claims\<close>

text \<open>
  C1: in \<open>GoogleTestParser.parse\<close> the completion matched to a start marker is the first OK
  or FAILED marker by text position that lies after the start marker and carries its name,
  so an earlier FAILED marker wins over a later OK marker. The parser does otherwise: the loop
  over \<open>result_map\<close> visits every OK marker before any FAILED marker. On the first text below
  the FAILED marker at position 15 loses to the OK marker at position 37; on the second, a
  test that fails and passes when it is run again, the failed first run is reported as passed.
\<close>

theorem C1_later_ok_marker_wins:
  "result_map ''[ RUN      ] A\<newline>[  FAILED  ] A (9 ms)\<newline>[       OK ] A (4 ms)''
     = Inr [(37, \<lparr>r_name = ''A'', r_status = Passed, r_duration_ms = 4, r_end_pos = 58\<rparr>),
            (15, \<lparr>r_name = ''A'', r_status = Failed, r_duration_ms = 9, r_end_pos = 36\<rparr>)] \<and>
   GoogleTestParser_parse ''[ RUN      ] A\<newline>[  FAILED  ] A (9 ms)\<newline>[       OK ] A (4 ms)''
     = Inr [\<lparr>name = ''A'', status = Passed, duration_ms = 4, error_log = None\<rparr>] \<and>
   GoogleTestParser_parse
     ''[ RUN      ] A\<newline>[  FAILED  ] A (9 ms)\<newline>[ RUN      ] A\<newline>[       OK ] A (4 ms)''
     = Inr [\<lparr>name = ''A'', status = Passed, duration_ms = 4, error_log = None\<rparr>,
            \<lparr>name = ''A'', status = Passed, duration_ms = 4, error_log = None\<rparr>]"
  by code_simp




text \<open>
  C3, as amended: \<open>GoogleTestParser.parse\<close> does not consume a completion marker. When two
  start markers carry the same name and the only completion marker of that name lies after
  both, both records take their status and their duration from that one marker.
\<close>

theorem C3_completion_marker_shared:
  assumes "i < j" and "j < length (finditer run_pattern c)"
    and "strip (group_of c (finditer run_pattern c ! i) 1) = nm"
    and "strip (group_of c (finditer run_pattern c ! j) 1) = nm"
    and "result_map c = Inr rm"
    and "filter (\<lambda>(pos, res). r_name res = nm) rm = [(p, res)]"
    and "mstart (finditer run_pattern c ! i) < p"
    and "mstart (finditer run_pattern c ! j) < p"
  shows "\<exists>tcs. GoogleTestParser_parse c = Inr tcs \<and>
           status (tcs ! i) = r_status res \<and> duration_ms (tcs ! i) = r_duration_ms res \<and>
           status (tcs ! j) = r_status res \<and> duration_ms (tcs ! j) = r_duration_ms res"
proof -
  let ?rs = "finditer run_pattern c"
  from assms(5) obtain tcs where tcs: "GoogleTestParser_parse c = Inr tcs"
    unfolding gtest_parse_Inr by blast
  have fi: "find_result rm (mstart (?rs ! i)) (strip (group_of c (?rs ! i) 1)) = Some (p, res)"
    unfolding assms(3) using assms(6,7) by (rule find_result_unique)
  have fj: "find_result rm (mstart (?rs ! j)) (strip (group_of c (?rs ! j) 1)) = Some (p, res)"
    unfolding assms(4) using assms(6,8) by (rule find_result_unique)
  from assms(1,2) have "i < length ?rs" by simp
  with tcs assms(5) have "tcs ! i = gtest_case c ?rs rm (?rs ! i)"
    by (rule gtest_parse_nth)
  moreover from tcs assms(5,2) have "tcs ! j = gtest_case c ?rs rm (?rs ! j)"
    by (rule gtest_parse_nth)
  ultimately have "status (tcs ! i) = r_status res \<and> duration_ms (tcs ! i) = r_duration_ms res \<and>
           status (tcs ! j) = r_status res \<and> duration_ms (tcs ! j) = r_duration_ms res"
    using gtest_case_result [OF fi] gtest_case_result [OF fj] by simp
  with tcs show ?thesis by blast
qed

text \<open>
  C3, counterexample. The claim as first stated fails: the single OK marker below is matched
  to both start markers, and neither record is reported as not completed.
\<close>

theorem C3_marker_matched_twice:
  "GoogleTestParser_parse ''[ RUN      ] A\<newline>[ RUN      ] A\<newline>[       OK ] A (4 ms)'' =
     Inr [\<lparr>name = ''A'', status = Passed, duration_ms = 4, error_log = None\<rparr>,
          \<lparr>name = ''A'', status = Passed, duration_ms = 4, error_log = None\<rparr>]"
  by code_simp

text \<open>
  C3, witness: the text of the counterexample, where the one OK marker lies after both start
  markers.
\<close>

theorem C3_completion_marker_shared_witness:
  "\<exists>tcs. GoogleTestParser_parse
            ''[ RUN      ] A\<newline>[ RUN      ] A\<newline>[       OK ] A (4 ms)'' = Inr tcs \<and>
     status (tcs ! 0) = Passed \<and> duration_ms (tcs ! 0) = 4 \<and>
     status (tcs ! 1) = Passed \<and> duration_ms (tcs ! 1) = 4"
proof -
  let ?c = "''[ RUN      ] A\<newline>[ RUN      ] A\<newline>[       OK ] A (4 ms)''"
  let ?res = "\<lparr>r_name = ''A'', r_status = Passed, r_duration_ms = 4, r_end_pos = 51\<rparr>"
  have h1: "(0::nat) < 1" by simp
  have h2: "1 < length (finditer run_pattern ?c)" by code_simp
  have h3: "strip (group_of ?c (finditer run_pattern ?c ! 0) 1) = ''A''" by code_simp
  have h4: "strip (group_of ?c (finditer run_pattern ?c ! 1) 1) = ''A''" by code_simp
  have h5: "result_map ?c = Inr [(30, ?res)]" by code_simp
  have h6: "filter (\<lambda>(pos, res). r_name res = ''A'') [(30, ?res)] = [(30, ?res)]" by simp
  have h7: "mstart (finditer run_pattern ?c ! 0) < 30" by code_simp
  have h8: "mstart (finditer run_pattern ?c ! 1) < 30" by code_simp
  from C3_completion_marker_shared [OF h1 h2 h3 h4 h5 h6 h7 h8] show ?thesis by simp
qed

text \<open>
  C4: on the four lines \<open>[ RUN      ] A\<close>, \<open>[ RUN      ] B\<close>, \<open>[       OK ] B (4 ms)\<close>
  and \<open>[  FAILED  ] A (9 ms)\<close>, \<open>GoogleTestParser.parse\<close> returns two records, \<open>A\<close> then
  \<open>B\<close>: \<open>A\<close> failed with 9 ms, \<open>B\<close> passed with 4 ms. (The record of \<open>A\<close> also carries, as
  its error log, the text between its start marker and its FAILED marker.)
\<close>

theorem C4_interleaved_completions:
  "GoogleTestParser_parse
     ''[ RUN      ] A\<newline>[ RUN      ] B\<newline>[       OK ] B (4 ms)\<newline>[  FAILED  ] A (9 ms)'' =
     Inr [\<lparr>name = ''A'', status = Failed, duration_ms = 9,
            error_log = Some ''[ RUN      ] B\<newline>[       OK ] B (4 ms)''\<rparr>,
          \<lparr>name = ''B'', status = Passed, duration_ms = 4, error_log = None\<rparr>]"
  by code_simp

text \<open>
  C5: whatever the text, an error log in a record returned by \<open>GoogleTestParser.parse\<close>,
  \<open>GoTestParser.parse\<close>, \<open>PytestParser.parse\<close> or \<open>GenericParser.parse\<close> has at most 2048
  characters.
\<close>

theorem C5_error_log_bound:
  "(\<forall>tcs. GoogleTestParser_parse c = Inr tcs \<longrightarrow>
      (\<forall>tc \<in> set tcs. \<forall>e. error_log tc = Some e \<longrightarrow> length e \<le> 2048)) \<and>
   (\<forall>tcs. GoTestParser_parse c = Inr tcs \<longrightarrow>
      (\<forall>tc \<in> set tcs. \<forall>e. error_log tc = Some e \<longrightarrow> length e \<le> 2048)) \<and>
   (\<forall>tcs. PytestParser_parse c = Inr tcs \<longrightarrow>
      (\<forall>tc \<in> set tcs. \<forall>e. error_log tc = Some e \<longrightarrow> length e \<le> 2048)) \<and>
   (\<forall>tcs. GenericParser_parse c = Inr tcs \<longrightarrow>
      (\<forall>tc \<in> set tcs. \<forall>e. error_log tc = Some e \<longrightarrow> length e \<le> 2048))"
  by (intro conjI allI impI ballI)
     (erule (1) gtest_parse_bound go_parse_bound pytest_parse_bound generic_parse_bound,
      assumption)+

text \<open>
  C5, witness: a text with an error log for each of the parsers.
\<close>

theorem C5_error_log_bound_witness:
  "(\<exists>tcs. GoogleTestParser_parse ''[ RUN      ] A\<newline>boom\<newline>[  FAILED  ] A (9 ms)'' = Inr tcs \<and>
      (\<exists>tc \<in> set tcs. \<exists>e. error_log tc = Some e \<and> length e \<le> 2048)) \<and>
   (\<exists>tcs. GoTestParser_parse ''=== RUN   T\<newline>--- FAIL: T (0.01s)\<newline>    bad\<newline>'' = Inr tcs \<and>
      (\<exists>tc \<in> set tcs. \<exists>e. error_log tc = Some e \<and> length e \<le> 2048)) \<and>
   (\<exists>tcs. PytestParser_parse ''f.py::t FAILED\<newline>FAILED f.py::t - x\<newline>  detail'' = Inr tcs \<and>
      (\<exists>tc \<in> set tcs. \<exists>e. error_log tc = Some e \<and> length e \<le> 2048)) \<and>
   (\<exists>tcs. GenericParser_parse ''f.py::t FAILED\<newline>FAILED f.py::t - x\<newline>  detail'' = Inr tcs \<and>
      (\<exists>tc \<in> set tcs. \<exists>e. error_log tc = Some e \<and> length e \<le> 2048))"
proof -
  let ?g = "''[ RUN      ] A\<newline>boom\<newline>[  FAILED  ] A (9 ms)''"
  let ?s = "''=== RUN   T\<newline>--- FAIL: T (0.01s)\<newline>    bad\<newline>''"
  let ?p = "''f.py::t FAILED\<newline>FAILED f.py::t - x\<newline>  detail''"
  have g: "GoogleTestParser_parse ?g =
             Inr [\<lparr>name = ''A'', status = Failed, duration_ms = 9, error_log = Some ''boom''\<rparr>]"
    by code_simp
  have s: "GoTestParser_parse ?s =
             Inr [\<lparr>name = ''T'', status = Failed, duration_ms = 10, error_log = Some ''bad''\<rparr>]"
    by code_simp
  have p: "PytestParser_parse ?p =
             Inr [\<lparr>name = ''f.py::t'', status = Failed, duration_ms = 0,
                   error_log = Some ''detail''\<rparr>]"
    by code_simp
  have d: "GenericParser_parse ?p =
             Inr [\<lparr>name = ''f.py::t'', status = Failed, duration_ms = 0,
                   error_log = Some ''detail''\<rparr>]"
    by code_simp
  from C5_error_log_bound [of ?g] g
  have "\<exists>tcs. GoogleTestParser_parse ?g = Inr tcs \<and>
          (\<exists>tc \<in> set tcs. \<exists>e. error_log tc = Some e \<and> length e \<le> 2048)"
    by simp
  moreover from C5_error_log_bound [of ?s] s
  have "\<exists>tcs. GoTestParser_parse ?s = Inr tcs \<and>
          (\<exists>tc \<in> set tcs. \<exists>e. error_log tc = Some e \<and> length e \<le> 2048)"
    by simp
  moreover from C5_error_log_bound [of ?p] p
  have "\<exists>tcs. PytestParser_parse ?p = Inr tcs \<and>
          (\<exists>tc \<in> set tcs. \<exists>e. error_log tc = Some e \<and> length e \<le> 2048)"
    by simp
  moreover from C5_error_log_bound [of ?p] d
  have "\<exists>tcs. GenericParser_parse ?p = Inr tcs \<and>
          (\<exists>tc \<in> set tcs. \<exists>e. error_log tc = Some e \<and> length e \<le> 2048)"
    by simp
  ultimately show ?thesis by blast
qed

text \<open>
  C6, as amended: on every text on which the parsers that it calls return,
  \<open>GenericParser.parse\<close> returns the result of \<open>GoogleTestParser.parse\<close> when that is not
  empty, else the result of \<open>GoTestParser.parse\<close> when that is not empty, else the result of
  \<open>PytestParser.parse\<close>, empty or not; it returns nothing else. On a text in which none of
  the patterns of the three parsers matches, it returns the empty list.
\<close>

theorem C6_dispatch_order:
  "(\<forall>g. GoogleTestParser_parse c = Inr g \<longrightarrow> g \<noteq> [] \<longrightarrow> GenericParser_parse c = Inr g) \<and>
   (\<forall>s. GoogleTestParser_parse c = Inr [] \<longrightarrow> GoTestParser_parse c = Inr s \<longrightarrow> s \<noteq> [] \<longrightarrow>
      GenericParser_parse c = Inr s) \<and>
   (\<forall>p. GoogleTestParser_parse c = Inr [] \<longrightarrow> GoTestParser_parse c = Inr [] \<longrightarrow>
      PytestParser_parse c = Inr p \<longrightarrow> GenericParser_parse c = Inr p) \<and>
   (\<forall>r. GenericParser_parse c = Inr r \<longrightarrow>
      (GoogleTestParser_parse c = Inr r \<and> r \<noteq> []) \<or>
      (GoogleTestParser_parse c = Inr [] \<and> GoTestParser_parse c = Inr r \<and> r \<noteq> []) \<or>
      (GoogleTestParser_parse c = Inr [] \<and> GoTestParser_parse c = Inr [] \<and>
       PytestParser_parse c = Inr r)) \<and>
   (finditer run_pattern c = [] \<and> finditer ok_pattern c = [] \<and> finditer failed_pattern c = [] \<and>
    finditer test_pattern c = [] \<and> finditer result_pattern c = [] \<and>
    finditer pytest_pattern c = [] \<longrightarrow>
      GenericParser_parse c = Inr [])"
proof (intro conjI allI impI)
  fix g
  assume "GoogleTestParser_parse c = Inr g" and "g \<noteq> []"
  then show "GenericParser_parse c = Inr g" by (rule generic_parse_gtest)
next
  fix s
  assume "GoogleTestParser_parse c = Inr []" and "GoTestParser_parse c = Inr s" and "s \<noteq> []"
  then show "GenericParser_parse c = Inr s" by (rule generic_parse_go)
next
  fix p
  assume "GoogleTestParser_parse c = Inr []" and "GoTestParser_parse c = Inr []"
    and "PytestParser_parse c = Inr p"
  then show "GenericParser_parse c = Inr p" by (rule generic_parse_pytest)
next
  fix r
  assume "GenericParser_parse c = Inr r"
  then show "(GoogleTestParser_parse c = Inr r \<and> r \<noteq> []) \<or>
      (GoogleTestParser_parse c = Inr [] \<and> GoTestParser_parse c = Inr r \<and> r \<noteq> []) \<or>
      (GoogleTestParser_parse c = Inr [] \<and> GoTestParser_parse c = Inr [] \<and>
       PytestParser_parse c = Inr r)"
    by (rule generic_parse_result)
next
  assume a: "finditer run_pattern c = [] \<and> finditer ok_pattern c = [] \<and>
    finditer failed_pattern c = [] \<and> finditer test_pattern c = [] \<and>
    finditer result_pattern c = [] \<and> finditer pytest_pattern c = []"
  then have "GoogleTestParser_parse c = Inr []"
    by (simp add: no_match_gtest)
  moreover from a have "GoTestParser_parse c = Inr []"
    by (simp add: no_match_go)
  moreover from a have "PytestParser_parse c = Inr []"
    by (simp add: no_match_pytest)
  ultimately show "GenericParser_parse c = Inr []"
    by (rule generic_parse_pytest)
qed

text \<open>
  C6, counterexample. The claim as first stated fails: \<open>GenericParser.parse\<close> catches no
  exception. On the first text below the result of \<open>GoogleTestParser.parse\<close> is empty and
  \<open>PytestParser.parse\<close> finds a test, but \<open>GoTestParser.parse\<close>, tried before it, raises on
  the seconds \<open>1.2.3\<close>, and so does \<open>GenericParser.parse\<close>. The second text has no start marker
  of any format, and \<open>GenericParser.parse\<close> raises on it instead of returning the empty list.
\<close>

theorem C6_parser_error_ends_dispatch:
  "GoogleTestParser_parse ''f.py::t PASSED\<newline>--- PASS: T (1.2.3s)'' = Inr [] \<and>
   GoTestParser_parse ''f.py::t PASSED\<newline>--- PASS: T (1.2.3s)'' = Inl ValueError \<and>
   PytestParser_parse ''f.py::t PASSED\<newline>--- PASS: T (1.2.3s)'' =
     Inr [\<lparr>name = ''f.py::t'', status = Passed, duration_ms = 0, error_log = None\<rparr>] \<and>
   GenericParser_parse ''f.py::t PASSED\<newline>--- PASS: T (1.2.3s)'' = Inl ValueError \<and>
   finditer run_pattern ''--- PASS: T (1.2.3s)'' = [] \<and>
   finditer test_pattern ''--- PASS: T (1.2.3s)'' = [] \<and>
   finditer pytest_pattern ''--- PASS: T (1.2.3s)'' = [] \<and>
   GenericParser_parse ''--- PASS: T (1.2.3s)'' = Inl ValueError"
  by code_simp

text \<open>
  C6, witness: a text for each parser whose result is returned, and a text without any marker.
\<close>

theorem C6_dispatch_order_witness:
  "GenericParser_parse ''[ RUN      ] A\<newline>f.py::t PASSED'' =
     Inr [\<lparr>name = ''A'', status = Failed, duration_ms = 0, error_log = Some ''f.py::t PASSED''\<rparr>] \<and>
   GenericParser_parse ''=== RUN   T\<newline>--- PASS: T (1.5s)\<newline>f.py::t PASSED'' =
     Inr [\<lparr>name = ''T'', status = Passed, duration_ms = 1500, error_log = None\<rparr>] \<and>
   GenericParser_parse ''f.py::t PASSED'' =
     Inr [\<lparr>name = ''f.py::t'', status = Passed, duration_ms = 0, error_log = None\<rparr>] \<and>
   PytestParser_parse ''f.py::t PASSED'' =
     Inr [\<lparr>name = ''f.py::t'', status = Passed, duration_ms = 0, error_log = None\<rparr>] \<and>
   GenericParser_parse ''no test output here'' = Inr []"
proof -
  let ?n = "''no test output here''"
  let ?g = "''[ RUN      ] A\<newline>f.py::t PASSED''"
  let ?s = "''=== RUN   T\<newline>--- PASS: T (1.5s)\<newline>f.py::t PASSED''"
  let ?p = "''f.py::t PASSED''"
  let ?tg = "\<lparr>name = ''A'', status = Failed, duration_ms = 0, error_log = Some ''f.py::t PASSED''\<rparr>"
  let ?ts = "\<lparr>name = ''T'', status = Passed, duration_ms = 1500, error_log = None\<rparr>"
  let ?tp = "\<lparr>name = ''f.py::t'', status = Passed, duration_ms = 0, error_log = None\<rparr>"
  have n: "finditer run_pattern ?n = [] \<and> finditer ok_pattern ?n = [] \<and>
           finditer failed_pattern ?n = [] \<and> finditer test_pattern ?n = [] \<and>
           finditer result_pattern ?n = [] \<and> finditer pytest_pattern ?n = []"
    by code_simp
  have g: "GoogleTestParser_parse ?g = Inr [?tg]"
    by code_simp
  have s1: "GoogleTestParser_parse ?s = Inr []" and s2: "GoTestParser_parse ?s = Inr [?ts]"
    by code_simp+
  have p1: "GoogleTestParser_parse ?p = Inr []" and p2: "GoTestParser_parse ?p = Inr []"
    and p3: "PytestParser_parse ?p = Inr [?tp]"
    by code_simp+
  have ne: "[?tg] \<noteq> []" "[?ts] \<noteq> []"
    by simp_all
  note dg = C6_dispatch_order [of ?g, THEN conjunct1, THEN spec, of "[?tg]"]
  note ds = C6_dispatch_order [of ?s, THEN conjunct2, THEN conjunct1, THEN spec, of "[?ts]"]
  note dp = C6_dispatch_order [of ?p, THEN conjunct2, THEN conjunct2, THEN conjunct1, THEN spec,
              of "[?tp]"]
  note dr = C6_dispatch_order [of ?p, THEN conjunct2, THEN conjunct2, THEN conjunct2,
              THEN conjunct1, THEN spec, of "[?tp]"]
  note dn = C6_dispatch_order [of ?n, THEN conjunct2, THEN conjunct2, THEN conjunct2,
              THEN conjunct2]
  from dg g ne(1) have 1: "GenericParser_parse ?g = Inr [?tg]"
    by (rule mp [THEN mp])
  from ds [THEN mp, OF s1, THEN mp, OF s2, THEN mp, OF ne(2)]
  have 2: "GenericParser_parse ?s = Inr [?ts]" .
  from dp [THEN mp, OF p1, THEN mp, OF p2, THEN mp, OF p3]
  have 3: "GenericParser_parse ?p = Inr [?tp]" .
  from dr [THEN mp, OF 3] p1 p2 have 4: "PytestParser_parse ?p = Inr [?tp]"
    by simp
  from dn [THEN mp, OF n] have 5: "GenericParser_parse ?n = Inr []" .
  from 1 2 3 4 5 show ?thesis by blast
qed




text \<open>
  C8: \<open>GoTestParser.parse\<close> converts the seconds captured from a terminal line to
  \<open>duration_ms\<close> by truncating multiplication by 1000, and on \<open>=== RUN   name\<close> followed
  by \<open>--- PASS: name (0.01s)\<close> the result is one record, passed, with \<open>duration_ms = 10\<close>.
  The concrete case holds. The conversion does not: the parser multiplies in floating point,
  \<open>int(float(s) * 1000)\<close>, where the double nearest to the seconds may lie below them and its
  product with 1000 below the next integer. On \<open>--- PASS: T (32.30s)\<close> the record has
  \<open>duration_ms = 32299\<close>, while 32.30 times 1000, truncated, is 32300; likewise 1.001
  seconds give 1000 and not 1001.
\<close>

theorem C8_float_product_truncated_low:
  "GoTestParser_parse ''=== RUN   T\<newline>--- PASS: T (32.30s)'' =
     Inr [\<lparr>name = ''T'', status = Passed, duration_ms = 32299, error_log = None\<rparr>] \<and>
   spec_truncated_ms ''32.30'' = 32300 \<and>
   seconds_to_ms ''1.001'' = Inr 1000 \<and> spec_truncated_ms ''1.001'' = 1001 \<and>
   GoTestParser_parse ''=== RUN   name\<newline>--- PASS: name (0.01s)'' =
     Inr [\<lparr>name = ''name'', status = Passed, duration_ms = 10, error_log = None\<rparr>] \<and>
   spec_truncated_ms ''0.01'' = 10"
  by code_simp




text \<open>
  C10: \<open>GoogleTestParser.parse\<close> and \<open>GoTestParser.parse\<close> emit records only under names
  captured by a start marker. A name that no start marker of the text captures, even when an
  OK, FAILED, PASS, FAIL or SKIP marker carries it, is the name of no record.
\<close>

theorem C10_records_only_for_started_names:
  "(\<forall>tcs nm. GoogleTestParser_parse c = Inr tcs \<longrightarrow>
          (\<forall>m \<in> set (finditer run_pattern c). strip (group_of c m 1) \<noteq> nm) \<longrightarrow>
          nm \<notin> name ` set tcs) \<and>
   (\<forall>tcs nm. GoTestParser_parse c = Inr tcs \<longrightarrow>
          (\<forall>m \<in> set (finditer test_pattern c). strip (group_of c m 1) \<noteq> nm) \<longrightarrow>
          nm \<notin> name ` set tcs)"
proof (intro conjI allI impI)
  fix tcs nm
  assume "GoogleTestParser_parse c = Inr tcs"
    and "\<forall>m \<in> set (finditer run_pattern c). strip (group_of c m 1) \<noteq> nm"
  then show "nm \<notin> name ` set tcs"
    using gtest_parse_names [of c tcs, THEN arg_cong, of set] by (simp only: set_map) blast
next
  fix tcs nm
  assume "GoTestParser_parse c = Inr tcs"
    and "\<forall>m \<in> set (finditer test_pattern c). strip (group_of c m 1) \<noteq> nm"
  then show "nm \<notin> name ` set tcs"
    by (auto simp: go_parse_names)
qed

text \<open>
  C10, witness: two texts in which a completion marker names a test \<open>B\<close> that was never
  started.
\<close>

theorem C10_records_only_for_started_names_witness:
  "result_map ''[ RUN      ] A\<newline>[       OK ] B (4 ms)'' =
     Inr [(15, \<lparr>r_name = ''B'', r_status = Passed, r_duration_ms = 4, r_end_pos = 36\<rparr>)] \<and>
   (\<exists>tcs. GoogleTestParser_parse ''[ RUN      ] A\<newline>[       OK ] B (4 ms)'' = Inr tcs \<and>
           ''B'' \<notin> name ` set tcs) \<and>
   length (finditer result_pattern ''=== RUN   A\<newline>--- PASS: B (0.01s)'') = 1 \<and>
   (\<exists>tcs. GoTestParser_parse ''=== RUN   A\<newline>--- PASS: B (0.01s)'' = Inr tcs \<and>
           ''B'' \<notin> name ` set tcs)"
proof -
  let ?g = "''[ RUN      ] A\<newline>[       OK ] B (4 ms)''"
  let ?s = "''=== RUN   A\<newline>--- PASS: B (0.01s)''"
  let ?tg = "\<lparr>name = ''A'', status = Failed, duration_ms = 0,
               error_log = Some ''[       OK ] B (4 ms)''\<rparr>"
  have g1: "result_map ?g =
              Inr [(15, \<lparr>r_name = ''B'', r_status = Passed, r_duration_ms = 4, r_end_pos = 36\<rparr>)]"
    by code_simp
  have "list_all (\<lambda>m. strip (group_of ?g m 1) \<noteq> ''B'') (finditer run_pattern ?g)"
    by code_simp
  then have g2: "\<forall>m \<in> set (finditer run_pattern ?g). strip (group_of ?g m 1) \<noteq> ''B''"
    unfolding list_all_iff .
  have g3: "GoogleTestParser_parse ?g = Inr [?tg]"
    by code_simp
  have s1: "length (finditer result_pattern ?s) = 1"
    by code_simp
  have "list_all (\<lambda>m. strip (group_of ?s m 1) \<noteq> ''B'') (finditer test_pattern ?s)"
    by code_simp
  then have s2: "\<forall>m \<in> set (finditer test_pattern ?s). strip (group_of ?s m 1) \<noteq> ''B''"
    unfolding list_all_iff .
  have s3: "GoTestParser_parse ?s = Inr []"
    by code_simp
  have "''B'' \<notin> name ` set [?tg]"
    using C10_records_only_for_started_names [of ?g, THEN conjunct1, THEN spec, THEN spec,
        of "[?tg]" "''B''", THEN mp, OF g3] g2
    by (rule mp)
  with g3 have g: "\<exists>tcs. GoogleTestParser_parse ?g = Inr tcs \<and> ''B'' \<notin> name ` set tcs"
    by (intro exI conjI)
  have "''B'' \<notin> name ` set ([] :: test_case list)"
    using C10_records_only_for_started_names [of ?s, THEN conjunct2, THEN spec, THEN spec,
        of "[]" "''B''", THEN mp, OF s3] s2
    by (rule mp)
  with s3 have "\<exists>tcs. GoTestParser_parse ?s = Inr tcs \<and> ''B'' \<notin> name ` set tcs"
    by (intro exI conjI)
  with g1 g s1 show ?thesis
    by (intro conjI)
qed

end
